theory Spec2Isabelle
  imports Complex_Main "HOL-Library.Log_Nat"
begin

section \<open>JavaScript values\<close>

text \<open>
  A JavaScript Number is an IEEE 754 binary64 value. The model keeps the special values
  apart and carries a finite value as the rational it denotes: \<open>Fin 0\<close> is \<open>+0\<close>,
  \<open>NZero\<close> is \<open>-0\<close>. Arithmetic computes the exact rational result and rounds it to
  binary64 (\<open>fl\<close> below), as the language specification prescribes.

  A string is a list of code units; a \<open>char\<close> stands for the code unit of the same
  number (U+0000 to U+00FF). The primitive values \<open>undefined\<close>, \<open>null\<close>, booleans,
  numbers and strings are modelled; objects, symbols and BigInts are not.
\<close>

datatype jsnum = NaN | PInf | NInf | NZero | Fin rat

datatype jsval = JUndefined | JNull | JBool bool | JNum jsnum | JStr string

datatype error = TypeError | SyntaxError | InvalidCharacterError

subsection \<open>Rounding to binary64\<close>

definition pow2 :: "int \<Rightarrow> rat" where
  "pow2 e = (if 0 \<le> e then 2 ^ nat e else 1 / 2 ^ nat (- e))"

text \<open>\<open>binade x\<close> is the exponent \<open>e\<close> with \<open>2\<^sup>e \<le> x < 2\<^sup>e\<^sup>+\<^sup>1\<close>, for \<open>x > 0\<close>.\<close>

definition binade :: "rat \<Rightarrow> int" where
  "binade x =
     (let (p, q) = quotient_of x; d = bitlen p - bitlen q
      in if pow2 d \<le> x then d else d - 1)"

definition round_half_even :: "rat \<Rightarrow> int" where
  "round_half_even x =
     (let f = \<lfloor>x\<rfloor>; d = x - of_int f
      in if d < 1 / 2 then f
         else if 1 / 2 < d then f + 1
         else if even f then f else f + 1)"

text \<open>
  Round to nearest, ties to even, with 53 bits of precision, the least exponent -1022
  (below it the spacing stays \<open>2\<^sup>-\<^sup>1\<^sup>0\<^sup>7\<^sup>4\<close>: subnormal numbers) and overflow to an
  infinity from \<open>2\<^sup>1\<^sup>0\<^sup>2\<^sup>4\<close> on. An exact zero is \<open>+0\<close> here; the operations choose
  the sign of their zero results themselves.
\<close>

definition fl :: "rat \<Rightarrow> jsnum" where
  "fl x =
     (if x = 0 then Fin 0
      else
        let q = pow2 (max (binade \<bar>x\<bar>) (- 1022) - 52);
            y = of_int (round_half_even (\<bar>x\<bar> / q)) * q
        in if 2 ^ 1024 \<le> y then (if x < 0 then NInf else PInf)
           else if y = 0 then (if x < 0 then NZero else Fin 0)
           else Fin (if x < 0 then - y else y))"

subsection \<open>Number operations\<close>

fun is_inf :: "jsnum \<Rightarrow> bool" where
  "is_inf PInf = True"
| "is_inf NInf = True"
| "is_inf _ = False"

fun is_zero :: "jsnum \<Rightarrow> bool" where
  "is_zero NZero = True"
| "is_zero (Fin r) = (r = 0)"
| "is_zero _ = False"

fun is_neg :: "jsnum \<Rightarrow> bool" where
  "is_neg NInf = True"
| "is_neg NZero = True"
| "is_neg (Fin r) = (r < 0)"
| "is_neg _ = False"

fun val :: "jsnum \<Rightarrow> rat" where
  "val (Fin r) = r"
| "val _ = 0"

text \<open>The operator \<open>*\<close> on Numbers (Number::multiply).\<close>

definition js_mul :: "jsnum \<Rightarrow> jsnum \<Rightarrow> jsnum" where
  "js_mul a b =
     (if a = NaN \<or> b = NaN then NaN
      else if (is_inf a \<and> is_zero b) \<or> (is_zero a \<and> is_inf b) then NaN
      else if is_inf a \<or> is_inf b then (if is_neg a \<noteq> is_neg b then NInf else PInf)
      else if is_zero a \<or> is_zero b then (if is_neg a \<noteq> is_neg b then NZero else Fin 0)
      else fl (val a * val b))"

text \<open>The operator \<open>+\<close> on Numbers (Number::add).\<close>

definition js_add :: "jsnum \<Rightarrow> jsnum \<Rightarrow> jsnum" where
  "js_add a b =
     (if a = NaN \<or> b = NaN then NaN
      else if is_inf a \<and> is_inf b then (if a = b then a else NaN)
      else if is_inf a then a
      else if is_inf b then b
      else if a = NZero \<and> b = NZero then NZero
      else fl (val a + val b))"

text \<open>
  The comparison \<open><\<close> on Numbers other than NaN; the two zeros are equal.
\<close>

fun level :: "jsnum \<Rightarrow> int" where
  "level NInf = - 1"
| "level PInf = 1"
| "level _ = 0"

definition num_less :: "jsnum \<Rightarrow> jsnum \<Rightarrow> bool" where
  "num_less a b = (level a < level b \<or> (level a = level b \<and> val a < val b))"

text \<open>
  \<open>Math.min\<close> and \<open>Math.max\<close>: NaN if an argument is NaN; otherwise the least (greatest)
  argument, starting from \<open>+\<infinity>\<close> (\<open>-\<infinity>\<close>), with \<open>-0\<close> below \<open>+0\<close>.
\<close>

definition min_step :: "jsnum \<Rightarrow> jsnum \<Rightarrow> jsnum" where
  "min_step n lowest =
     (if n = NZero \<and> lowest = Fin 0 then NZero
      else if num_less n lowest then n else lowest)"

definition max_step :: "jsnum \<Rightarrow> jsnum \<Rightarrow> jsnum" where
  "max_step n highest =
     (if n = Fin 0 \<and> highest = NZero then Fin 0
      else if num_less highest n then n else highest)"

definition Math_min :: "jsnum list \<Rightarrow> jsnum" where
  "Math_min ns = (if NaN \<in> set ns then NaN else fold min_step ns PInf)"

definition Math_max :: "jsnum list \<Rightarrow> jsnum" where
  "Math_max ns = (if NaN \<in> set ns then NaN else fold max_step ns NInf)"

text \<open>
  \<open>Math.round\<close>: the nearest integer, a tie going up; NaN, the infinities and the zeros
  are returned as they are, and a result of zero takes the sign of the argument.
\<close>

fun Math_round :: "jsnum \<Rightarrow> jsnum" where
  "Math_round (Fin r) =
     (let k = \<lfloor>r + 1 / 2\<rfloor>
      in if k = 0 then (if r < 0 then NZero else Fin 0) else Fin (of_int k))"
| "Math_round n = n"

text \<open>ToBoolean on a Number: NaN and the zeros are falsy.\<close>

definition truthy :: "jsnum \<Rightarrow> bool" where
  "truthy n = (n \<noteq> NaN \<and> \<not> is_zero n)"

subsection \<open>Strings to numbers\<close>

text \<open>
  \<open>Number(s)\<close> on a string strips white space and line terminators at both ends and
  reads what is left as a StringNumericLiteral: nothing (the value \<open>+0\<close>), a binary,
  octal or hexadecimal integer, or a signed decimal with an optional fraction and
  exponent, or \<open>Infinity\<close>. Anything else is NaN.
\<close>

definition is_ws :: "char \<Rightarrow> bool" where
  "is_ws c = (c \<in> set [CHR 0x09, CHR 0x0A, CHR 0x0B, CHR 0x0C, CHR 0x0D, CHR 0x20, CHR 0xA0])"

definition trim :: "string \<Rightarrow> string" where
  "trim s = rev (dropWhile is_ws (rev (dropWhile is_ws s)))"

definition digit_of :: "char \<Rightarrow> nat option" where
  "digit_of c =
     (let n = (of_char c :: nat)
      in if 48 \<le> n \<and> n \<le> 57 then Some (n - 48)
         else if 97 \<le> n \<and> n \<le> 102 then Some (n - 87)
         else if 65 \<le> n \<and> n \<le> 70 then Some (n - 55)
         else None)"

definition is_digit :: "nat \<Rightarrow> char \<Rightarrow> bool" where
  "is_digit base c = (case digit_of c of None \<Rightarrow> False | Some d \<Rightarrow> d < base)"

definition digits_val :: "nat \<Rightarrow> string \<Rightarrow> nat" where
  "digits_val base ds = foldl (\<lambda>acc c. acc * base + (case digit_of c of None \<Rightarrow> 0 | Some d \<Rightarrow> d)) 0 ds"

definition radix_literal :: "nat \<Rightarrow> string \<Rightarrow> jsnum" where
  "radix_literal base ds =
     (if ds \<noteq> [] \<and> list_all (is_digit base) ds
      then fl (of_nat (digits_val base ds)) else NaN)"

text \<open>The exponent part after the mantissa: empty, or \<open>e\<close>/\<open>E\<close>, a sign, digits.\<close>

definition exponent_part :: "string \<Rightarrow> int option" where
  "exponent_part s =
     (case s of
        [] \<Rightarrow> Some 0
      | c # r \<Rightarrow>
          if c = CHR ''e'' \<or> c = CHR ''E'' then
            (let neg = (r \<noteq> [] \<and> hd r = CHR ''-'');
                 ds = (if r \<noteq> [] \<and> (hd r = CHR ''-'' \<or> hd r = CHR ''+'') then tl r else r)
             in if ds \<noteq> [] \<and> list_all (is_digit 10) ds
                then Some (if neg then - int (digits_val 10 ds) else int (digits_val 10 ds))
                else None)
          else None)"

definition scale10 :: "rat \<Rightarrow> int \<Rightarrow> rat" where
  "scale10 m e = (if 0 \<le> e then m * 10 ^ nat e else m / 10 ^ nat (- e))"

definition unsigned_decimal :: "string \<Rightarrow> rat option" where
  "unsigned_decimal s =
     (let ip = takeWhile (is_digit 10) s;
          r1 = dropWhile (is_digit 10) s;
          dot = (r1 \<noteq> [] \<and> hd r1 = CHR ''.'');
          fp = (if dot then takeWhile (is_digit 10) (tl r1) else []);
          r2 = (if dot then dropWhile (is_digit 10) (tl r1) else r1)
      in if ip = [] \<and> fp = [] then None
         else case exponent_part r2 of
                None \<Rightarrow> None
              | Some e \<Rightarrow> Some (scale10 (of_nat (digits_val 10 (ip @ fp))) (e - int (length fp))))"

definition decimal_literal :: "string \<Rightarrow> jsnum" where
  "decimal_literal s =
     (let neg = (s \<noteq> [] \<and> hd s = CHR ''-'');
          u = (if s \<noteq> [] \<and> (hd s = CHR ''-'' \<or> hd s = CHR ''+'') then tl s else s)
      in if u = ''Infinity'' then (if neg then NInf else PInf)
         else case unsigned_decimal u of
                None \<Rightarrow> NaN
              | Some m \<Rightarrow>
                  if m = 0 then (if neg then NZero else Fin 0)
                  else fl (if neg then - m else m))"

definition StringToNumber :: "string \<Rightarrow> jsnum" where
  "StringToNumber s =
     (let t = trim s
      in if t = [] then Fin 0
         else if take 2 t = ''0x'' \<or> take 2 t = ''0X'' then radix_literal 16 (drop 2 t)
         else if take 2 t = ''0o'' \<or> take 2 t = ''0O'' then radix_literal 8 (drop 2 t)
         else if take 2 t = ''0b'' \<or> take 2 t = ''0B'' then radix_literal 2 (drop 2 t)
         else decimal_literal t)"

text \<open>\<open>Number(v)\<close>, that is ToNumber, on a primitive value.\<close>

fun Number :: "jsval \<Rightarrow> jsnum" where
  "Number JUndefined = NaN"
| "Number JNull = Fin 0"
| "Number (JBool b) = (if b then Fin 1 else Fin 0)"
| "Number (JNum n) = n"
| "Number (JStr s) = StringToNumber s"

section \<open>Utilities of the script\<close>

text \<open>
  The helpers \<open>qs\<close> and \<open>qsa\<close> look elements up; their results are the elements of the
  document below. \<open>msToSecondsString\<close> formats a duration for the text and the inline
  style that the script writes, which the model does not keep.
\<close>

text \<open>\<open>clamp(value, min, max)\<close>: \<open>Math.max(min, Math.min(max, value))\<close>.\<close>

definition clamp :: "jsnum \<Rightarrow> jsnum \<Rightarrow> jsnum \<Rightarrow> jsnum" where
  "clamp v lo hi = Math_max [lo, Math_min [hi, v]]"

text \<open>
  \<open>computeDurationMs(multiplier)\<close>: the base is 900; \<open>Number(multiplier) || 1\<close> is the
  converted multiplier when it is truthy and 1 otherwise.
\<close>

definition computeDurationMs :: "jsval \<Rightarrow> jsnum" where
  "computeDurationMs multiplier =
     (let base = Fin 900;
          n = Number multiplier;
          m = clamp (if truthy n then n else Fin 1) (Fin (1 / 4)) (Fin 4)
      in Math_round (js_mul base m))"

text \<open>
  The specification's formula for the duration, \<open>round(900 \<times> clamp(m, 0.25, 4))\<close>, on a
  finite number \<open>m\<close>, in the specification's words: to clamp is to restrict a value to
  a closed interval, to round is to take the nearest integer (a half goes up), and the
  product is the product of Numbers, the exact product rounded to binary64.
\<close>

definition spec_clamp :: "rat \<Rightarrow> rat \<Rightarrow> rat \<Rightarrow> rat" where
  "spec_clamp x lo hi = (if x < lo then lo else if hi < x then hi else x)"

definition spec_duration :: "rat \<Rightarrow> jsnum" where
  "spec_duration m = Fin (of_int (round (val (fl (900 * spec_clamp m (1 / 4) 4)))))"

section \<open>Elements and their class lists\<close>

text \<open>
  Of an element the model keeps what the script reads and writes: the class list, an
  ordered set of tokens, and the attributes. Text content and inline style, which the
  script only writes, are left out. An element that a lookup does not find is \<open>None\<close>.

  The methods of a class list check their tokens first, as the DOM prescribes: the empty
  string is a SyntaxError, a token with ASCII white space an InvalidCharacterError.
\<close>

record element =
  classList :: "string list"
  attributes :: "string \<rightharpoonup> string"

definition ascii_ws :: "char \<Rightarrow> bool" where
  "ascii_ws c = (c = CHR 0x09 \<or> c = CHR 0x0A \<or> c = CHR 0x0C \<or> c = CHR 0x0D \<or> c = CHR 0x20)"

definition validate_token :: "string \<Rightarrow> error option" where
  "validate_token t =
     (if t = [] then Some SyntaxError
      else if list_ex ascii_ws t then Some InvalidCharacterError
      else None)"

fun validate_tokens :: "string list \<Rightarrow> error option" where
  "validate_tokens [] = None"
| "validate_tokens (t # ts) =
     (case validate_token t of Some e \<Rightarrow> Some e | None \<Rightarrow> validate_tokens ts)"

definition add_token :: "string list \<Rightarrow> string \<Rightarrow> string list" where
  "add_token xs t = (if t \<in> set xs then xs else xs @ [t])"

definition remove_token :: "string list \<Rightarrow> string \<Rightarrow> string list" where
  "remove_token xs t = removeAll t xs"

text \<open>\<open>classList.add(tokens...)\<close> and \<open>classList.remove(tokens...)\<close>.\<close>

definition classList_add :: "string list \<Rightarrow> string list \<Rightarrow> error + string list" where
  "classList_add tokens xs =
     (case validate_tokens tokens of Some e \<Rightarrow> Inl e | None \<Rightarrow> Inr (foldl add_token xs tokens))"

definition classList_remove :: "string list \<Rightarrow> string list \<Rightarrow> error + string list" where
  "classList_remove tokens xs =
     (case validate_tokens tokens of
        Some e \<Rightarrow> Inl e
      | None \<Rightarrow> Inr (foldl remove_token xs tokens))"

text \<open>
  \<open>classList.toggle(token, force)\<close>, the force being optional: a token that is there is
  removed unless the force is \<open>true\<close>; one that is not there is added unless the force
  is \<open>false\<close>. The result tells whether the token is there afterwards.
\<close>

definition classList_toggle ::
    "string \<Rightarrow> bool option \<Rightarrow> string list \<Rightarrow> error + (bool \<times> string list)" where
  "classList_toggle t force xs =
     (case validate_token t of
        Some e \<Rightarrow> Inl e
      | None \<Rightarrow>
          if t \<in> set xs then
            (if force = None \<or> force = Some False then Inr (False, remove_token xs t)
             else Inr (True, xs))
          else
            (if force = None \<or> force = Some True then Inr (True, add_token xs t)
             else Inr (False, xs)))"

definition classList_contains :: "string \<Rightarrow> string list \<Rightarrow> bool" where
  "classList_contains t xs = (t \<in> set xs)"

definition setAttribute :: "string \<Rightarrow> string \<Rightarrow> element \<Rightarrow> element" where
  "setAttribute name v el = el\<lparr>attributes := (attributes el)(name \<mapsto> v)\<rparr>"

section \<open>The class toggler\<close>

text \<open>
  \<open>toggleClass(el, className, force)\<close> returns its result together with the element as
  the call leaves it. A force that is not a boolean, \<open>undefined\<close> when the argument is
  left out, takes the second branch.
\<close>

definition toggleClass ::
    "element option \<Rightarrow> string \<Rightarrow> jsval \<Rightarrow> error + (bool \<times> element option)" where
  "toggleClass el className force =
     (case el of
        None \<Rightarrow> Inr (False, None)
      | Some e \<Rightarrow>
          (case force of
             JBool b \<Rightarrow>
               (case classList_toggle className (Some b) (classList e) of
                  Inl err \<Rightarrow> Inl err
                | Inr (r, cl) \<Rightarrow> Inr (b, Some (e\<lparr>classList := cl\<rparr>)))
           | _ \<Rightarrow>
               (case classList_toggle className None (classList e) of
                  Inl err \<Rightarrow> Inl err
                | Inr (r, cl) \<Rightarrow>
                    Inr (classList_contains className cl, Some (e\<lparr>classList := cl\<rparr>)))))"

section \<open>The closure counter\<close>

text \<open>
  The variable \<open>count\<close> that a closure captures lives in a store of closure variables;
  the function \<open>inc\<close> that \<open>makeCounter\<close> returns is the address of its variable.
  \<open>makeCounter\<close> allocates a new variable; the default 0 stands in for an argument that
  is \<open>undefined\<close>.

  \<open>count += 1\<close> adds with the operator \<open>+\<close>: a string is extended by \<open>"1"\<close>, any other
  primitive is converted to a Number first.
\<close>

type_synonym store = "jsval list"

definition plus_one :: "jsval \<Rightarrow> jsval" where
  "plus_one v = (case v of JStr s \<Rightarrow> JStr (s @ ''1'') | _ \<Rightarrow> JNum (js_add (Number v) (Fin 1)))"

definition makeCounter :: "jsval \<Rightarrow> store \<Rightarrow> nat \<times> store" where
  "makeCounter start st =
     (let count = (if start = JUndefined then JNum (Fin 0) else start)
      in (length st, st @ [count]))"

definition inc :: "nat \<Rightarrow> store \<Rightarrow> jsval \<times> store" where
  "inc a st = (let count = plus_one (st ! a) in (count, st[a := count]))"


section \<open>The page\<close>

text \<open>
  The document gives the elements that the script looks up, each once, when it is
  loaded. Of \<open>#durationMultiplier\<close> only the property \<open>value\<close> is kept, of \<open>#calcResult\<close>
  and \<open>#scopeOut\<close> only whether they exist.
\<close>

record document =
  durationInput :: "jsval option"
  calcResult :: bool
  scopeOut :: bool
  box :: "element option"
  jsFlipCard :: "element option"
  loader :: "element option"
  modal :: "element option"

record appstate =
  animationRuns :: jsnum
  lastDurationMs :: jsnum

text \<open>
  The state of the page: the document, the object \<open>AppState\<close>, the closure variables with
  the closure \<open>incrementRuns\<close>, and the timers that are pending, each with its identifier
  and the time in milliseconds at which it is due.
\<close>

record page =
  doc :: document
  AppState :: appstate
  closures :: store
  incrementRuns :: nat
  timers :: "(nat \<times> nat) list"
  next_timer :: nat
  now :: nat

text \<open>Loading the script: the top-level statements, in order.\<close>

definition load :: "document \<Rightarrow> page" where
  "load d =
     (let app = \<lparr>animationRuns = Fin 0, lastDurationMs = Fin 900\<rparr>;
          (f, st) = makeCounter (JNum (animationRuns app)) []
      in \<lparr>doc = d, AppState = app, closures = st, incrementRuns = f,
          timers = [], next_timer = 0, now = 0\<rparr>)"

subsection \<open>Listeners\<close>

text \<open>
  A listener returns the page as it leaves it and the exception it throws, if any: what
  it has written before throwing stays written.
\<close>

definition calcBtn_click :: "page \<Rightarrow> page \<times> error option" where
  "calcBtn_click s =
     (case durationInput (doc s) of
        None \<Rightarrow> (s, Some TypeError)
      | Some localMultiplier \<Rightarrow>
          (let duration = computeDurationMs localMultiplier;
               s1 = s\<lparr>AppState := (AppState s)\<lparr>lastDurationMs := duration\<rparr>\<rparr>
           in if calcResult (doc s1) then (s1, None) else (s1, Some TypeError)))"

definition scopeBtn_click :: "page \<Rightarrow> page \<times> error option" where
  "scopeBtn_click s =
     (let (run1, st1) = inc (incrementRuns s) (closures s);
          (run2, st2) = inc (incrementRuns s) st1;
          s1 = s\<lparr>closures := st2\<rparr>
      in if scopeOut (doc s1) then (s1, None) else (s1, Some TypeError))"

definition animateBtn_click :: "page \<Rightarrow> page \<times> error option" where
  "animateBtn_click s =
     (case box (doc s) of
        None \<Rightarrow> (s, Some TypeError)
      | Some b \<Rightarrow>
          (case classList_remove [''run''] (classList b) of
             Inl e \<Rightarrow> (s, Some e)
           | Inr cl1 \<Rightarrow>
               (case classList_add [''run''] cl1 of
                  Inl e \<Rightarrow> (s\<lparr>doc := (doc s)\<lparr>box := Some (b\<lparr>classList := cl1\<rparr>)\<rparr>\<rparr>, Some e)
                | Inr cl2 \<Rightarrow> (s\<lparr>doc := (doc s)\<lparr>box := Some (b\<lparr>classList := cl2\<rparr>)\<rparr>\<rparr>, None))))"

definition flipBtn_click :: "page \<Rightarrow> page \<times> error option" where
  "flipBtn_click s =
     (case toggleClass (jsFlipCard (doc s)) ''is-flipped'' JUndefined of
        Inl e \<Rightarrow> (s, Some e)
      | Inr (isFlipped, el) \<Rightarrow> (s\<lparr>doc := (doc s)\<lparr>jsFlipCard := el\<rparr>\<rparr>, None))"

definition startLoader_click :: "page \<Rightarrow> page \<times> error option" where
  "startLoader_click s =
     (case toggleClass (loader (doc s)) ''on'' (JBool True) of
        Inl e \<Rightarrow> (s, Some e)
      | Inr (r, el) \<Rightarrow> (s\<lparr>doc := (doc s)\<lparr>loader := el\<rparr>\<rparr>, None))"

definition stopLoader_click :: "page \<Rightarrow> page \<times> error option" where
  "stopLoader_click s =
     (case toggleClass (loader (doc s)) ''on'' (JBool False) of
        Inl e \<Rightarrow> (s, Some e)
      | Inr (r, el) \<Rightarrow> (s\<lparr>doc := (doc s)\<lparr>loader := el\<rparr>\<rparr>, None))"

subsection \<open>The modal\<close>

definition openModal :: "page \<Rightarrow> page \<times> error option" where
  "openModal s =
     (case modal (doc s) of
        None \<Rightarrow> (s, Some TypeError)
      | Some m \<Rightarrow>
          (case classList_remove [''closing''] (classList m) of
             Inl e \<Rightarrow> (s, Some e)
           | Inr cl1 \<Rightarrow>
               (case classList_add [''open''] cl1 of
                  Inl e \<Rightarrow> (s\<lparr>doc := (doc s)\<lparr>modal := Some (m\<lparr>classList := cl1\<rparr>)\<rparr>\<rparr>, Some e)
                | Inr cl2 \<Rightarrow>
                    (s\<lparr>doc := (doc s)\<lparr>modal :=
                          Some (setAttribute ''aria-hidden'' ''false'' (m\<lparr>classList := cl2\<rparr>))\<rparr>\<rparr>,
                     None))))"

text \<open>
  \<open>setTimeout(callback, delay)\<close>: a new pending timer, due \<open>delay\<close> milliseconds from now.
  The script keeps no identifier and never clears a timer; every timer runs the callback
  of \<open>closeModal\<close>.
\<close>

definition setTimeout :: "nat \<Rightarrow> page \<Rightarrow> page" where
  "setTimeout delay s =
     s\<lparr>timers := timers s @ [(next_timer s, now s + delay)], next_timer := next_timer s + 1\<rparr>"

definition closeModal :: "page \<Rightarrow> page \<times> error option" where
  "closeModal s =
     (case modal (doc s) of
        None \<Rightarrow> (s, Some TypeError)
      | Some m \<Rightarrow>
          (case classList_add [''closing''] (classList m) of
             Inl e \<Rightarrow> (s, Some e)
           | Inr cl \<Rightarrow>
               (setTimeout 260 (s\<lparr>doc := (doc s)\<lparr>modal := Some (m\<lparr>classList := cl\<rparr>)\<rparr>\<rparr>), None)))"

text \<open>The callback that \<open>closeModal\<close> hands to \<open>setTimeout\<close>.\<close>

definition closeModal_timeout :: "page \<Rightarrow> page \<times> error option" where
  "closeModal_timeout s =
     (case modal (doc s) of
        None \<Rightarrow> (s, Some TypeError)
      | Some m \<Rightarrow>
          (case classList_remove [''open'', ''closing''] (classList m) of
             Inl e \<Rightarrow> (s, Some e)
           | Inr cl \<Rightarrow>
               (s\<lparr>doc := (doc s)\<lparr>modal :=
                     Some (setAttribute ''aria-hidden'' ''true'' (m\<lparr>classList := cl\<rparr>))\<rparr>\<rparr>,
                None)))"

text \<open>The listener for \<open>keydown\<close> on the document, given the key of the event.\<close>

definition document_keydown :: "string \<Rightarrow> page \<Rightarrow> page \<times> error option" where
  "document_keydown key s =
     (if key = ''Escape'' then
        (case modal (doc s) of
           None \<Rightarrow> (s, Some TypeError)
         | Some m \<Rightarrow> if classList_contains ''open'' (classList m) then closeModal s else (s, None))
      else (s, None))"

subsection \<open>Events\<close>

text \<open>
  An event is one run of a registered listener or of a timer callback, the user typing
  into the input field, or time passing. Listeners run to completion, one after the
  other; an exception ends the listener and leaves the page as it is then. A timer can
  fire once the time at which it is due has come, and is no longer pending then.
\<close>

datatype event =
    CalcClick | ScopeClick | AnimateClick | FlipClick | StartLoaderClick | StopLoaderClick
  | OpenModalClick | CloseModalClick | BackdropClick | KeyDown string
  | UserInput string | Elapse nat | TimerFire nat

definition user_input :: "string \<Rightarrow> page \<Rightarrow> page" where
  "user_input v s =
     (case durationInput (doc s) of
        None \<Rightarrow> s
      | Some old \<Rightarrow> s\<lparr>doc := (doc s)\<lparr>durationInput := Some (JStr v)\<rparr>\<rparr>)"

definition timer_fire :: "nat \<Rightarrow> page \<Rightarrow> page option" where
  "timer_fire i s =
     (case map_of (timers s) i of
        None \<Rightarrow> None
      | Some due \<Rightarrow>
          if due \<le> now s
          then Some (fst (closeModal_timeout (s\<lparr>timers := filter (\<lambda>t. fst t \<noteq> i) (timers s)\<rparr>)))
          else None)"

fun step :: "event \<Rightarrow> page \<Rightarrow> page option" where
  "step CalcClick s = Some (fst (calcBtn_click s))"
| "step ScopeClick s = Some (fst (scopeBtn_click s))"
| "step AnimateClick s = Some (fst (animateBtn_click s))"
| "step FlipClick s = Some (fst (flipBtn_click s))"
| "step StartLoaderClick s = Some (fst (startLoader_click s))"
| "step StopLoaderClick s = Some (fst (stopLoader_click s))"
| "step OpenModalClick s = Some (fst (openModal s))"
| "step CloseModalClick s = Some (fst (closeModal s))"
| "step BackdropClick s = Some (fst (closeModal s))"
| "step (KeyDown key) s = Some (fst (document_keydown key s))"
| "step (UserInput v) s = Some (user_input v s)"
| "step (Elapse d) s = Some (s\<lparr>now := now s + d\<rparr>)"
| "step (TimerFire i) s = timer_fire i s"

fun run :: "event list \<Rightarrow> page \<Rightarrow> page option" where
  "run [] s = Some s"
| "run (e # es) s = (case step e s of None \<Rightarrow> None | Some s1 \<Rightarrow> run es s1)"

text \<open>The identifiers of the pending timers have all been handed out already.\<close>

definition timers_fresh :: "page \<Rightarrow> bool" where
  "timers_fresh s = list_all (\<lambda>t. fst t < next_timer s) (timers s)"

text \<open>The lookup of \<open>#modal\<close> has found an element.\<close>

definition modal_present :: "page \<Rightarrow> bool" where
  "modal_present s = (modal (doc s) \<noteq> None)"

text \<open>The modal is fully closed.\<close>

definition fully_closed :: "page \<Rightarrow> bool" where
  "fully_closed s =
     (case modal (doc s) of
        None \<Rightarrow> False
      | Some m \<Rightarrow>
          \<not> classList_contains ''open'' (classList m) \<and>
          \<not> classList_contains ''closing'' (classList m) \<and>
          attributes m ''aria-hidden'' = Some ''true'')"

text \<open>A document that has every element the script looks up.\<close>

definition doc0 :: document where
  "doc0 = \<lparr>durationInput = Some (JStr ''1''), calcResult = True, scopeOut = True,
     box = Some \<lparr>classList = [''box''], attributes = Map.empty\<rparr>,
     jsFlipCard = Some \<lparr>classList = [''card''], attributes = Map.empty\<rparr>,
     loader = Some \<lparr>classList = [''loader''], attributes = Map.empty\<rparr>,
     modal = Some \<lparr>classList = [''modal''], attributes = [''aria-hidden'' \<mapsto> ''true'']\<rparr>\<rparr>"

section \<open>Properties of the rounding\<close>

lemma pow2_powi: "pow2 e = 2 powi e"
  by (simp add: pow2_def power_int_def inverse_eq_divide power_one_over)

lemma binade_le:
  assumes "0 < x"
  shows "pow2 (binade x) \<le> x"
proof -
  obtain p q where pq: "quotient_of x = (p, q)" by (cases "quotient_of x")
  have qpos: "0 < q" using quotient_of_denom_pos [OF pq] .
  have xeq: "x = of_int p / of_int q" using quotient_of_div [OF pq] .
  have ppos: "0 < p" using assms qpos xeq by (simp add: zero_less_divide_iff)
  let ?d = "bitlen p - bitlen q"
  show ?thesis
  proof (cases "pow2 ?d \<le> x")
    case True
    then show ?thesis by (simp add: binade_def pq)
  next
    case False
    have b1: "1 \<le> bitlen p" using ppos by (simp add: bitlen_alt_def)
    have "(2::int) ^ nat (bitlen p - 1) \<le> p" using bitlen_bounds [OF ppos] by simp
    then have "(of_int ((2::int) ^ nat (bitlen p - 1)) :: rat) \<le> of_int p"
      by (simp only: of_int_le_iff)
    then have lo: "(2::rat) powi (bitlen p - 1) \<le> of_int p"
      using b1 by (simp add: power_int_def)
    have "q < 2 ^ nat (bitlen q)" using bitlen_bounds [OF qpos] by simp
    then have "(of_int q :: rat) < of_int ((2::int) ^ nat (bitlen q))"
      by (simp only: of_int_less_iff)
    then have hi: "of_int q \<le> (2::rat) powi (bitlen q)"
      using bitlen_nonneg [of q] by (simp add: power_int_def)
    have "(2::rat) powi (?d - 1) = 2 powi (bitlen p - 1) / 2 powi (bitlen q)"
      by (simp add: power_int_diff)
    also have "\<dots> \<le> of_int p / of_int q"
      using lo hi qpos ppos by (intro frac_le) simp_all
    finally have "pow2 (?d - 1) \<le> x" by (simp add: pow2_powi xeq)
    with False show ?thesis by (simp add: binade_def pq)
  qed
qed

lemma binade_less:
  assumes "0 < x"
  shows "x < pow2 (binade x + 1)"
proof -
  obtain p q where pq: "quotient_of x = (p, q)" by (cases "quotient_of x")
  have qpos: "0 < q" using quotient_of_denom_pos [OF pq] .
  have xeq: "x = of_int p / of_int q" using quotient_of_div [OF pq] .
  have ppos: "0 < p" using assms qpos xeq by (simp add: zero_less_divide_iff)
  let ?d = "bitlen p - bitlen q"
  show ?thesis
  proof (cases "pow2 ?d \<le> x")
    case False
    then show ?thesis by (simp add: binade_def pq)
  next
    case True
    have b1: "1 \<le> bitlen q" using qpos by (simp add: bitlen_alt_def)
    have "p < 2 ^ nat (bitlen p)" using bitlen_bounds [OF ppos] by simp
    then have "(of_int p :: rat) < of_int ((2::int) ^ nat (bitlen p))"
      by (simp only: of_int_less_iff)
    then have hi: "of_int p < (2::rat) powi (bitlen p)"
      using bitlen_nonneg [of p] by (simp add: power_int_def)
    have "(2::int) ^ nat (bitlen q - 1) \<le> q" using bitlen_bounds [OF qpos] by simp
    then have "(of_int ((2::int) ^ nat (bitlen q - 1)) :: rat) \<le> of_int q"
      by (simp only: of_int_le_iff)
    then have lo: "(2::rat) powi (bitlen q - 1) \<le> of_int q"
      using b1 by (simp add: power_int_def)
    have "of_int p / of_int q < (2::rat) powi (bitlen p) / 2 powi (bitlen q - 1)"
      using lo hi qpos ppos by (intro frac_less) simp_all
    also have "\<dots> = 2 powi (?d + 1)"
      by (simp add: power_int_diff power_int_add)
    finally have "x < pow2 (?d + 1)" by (simp add: pow2_powi xeq)
    with True show ?thesis by (simp add: binade_def pq)
  qed
qed

lemma round_half_even_ge:
  assumes "of_int n \<le> x"
  shows "n \<le> round_half_even x"
proof -
  have "n \<le> \<lfloor>x\<rfloor>" using assms by (simp add: le_floor_iff)
  then show ?thesis by (simp add: round_half_even_def Let_def)
qed

lemma round_half_even_le:
  assumes "x \<le> of_int n"
  shows "round_half_even x \<le> n"
proof (cases "x = of_int n")
  case True
  then show ?thesis by (simp add: round_half_even_def)
next
  case False
  then have "x < of_int n" using assms by simp
  then have "\<lfloor>x\<rfloor> < n" by (simp add: floor_less_iff)
  then show ?thesis by (simp add: round_half_even_def Let_def)
qed

lemma fl_between:
  assumes a: "0 < a" and ax: "of_int a \<le> x" and xb: "x \<le> of_int b" and b: "b < 2 ^ 53"
  shows "\<exists>y. fl x = Fin y \<and> of_int a \<le> y \<and> y \<le> of_int b"
proof -
  have xpos: "0 < x" using a ax by simp
  have "(of_int b :: rat) < of_int (2 ^ 53)" using b by (simp only: of_int_less_iff)
  then have x53: "x < 2 powi 53" using xb by simp
  have "(2::rat) powi binade x \<le> x" using binade_le [OF xpos] by (simp add: pow2_powi)
  then have "(2::rat) powi binade x < 2 powi 53" using x53 by simp
  then have e: "binade x < 53" by (rule power_int_le_imp_less_exp [rotated]) simp_all
  define k where "k = nat (52 - max (binade x) (- 1022))"
  define q where "q = pow2 (max (binade \<bar>x\<bar>) (- 1022) - 52)"
  have qk: "q = 1 / 2 ^ k"
    using e xpos by (simp add: q_def k_def pow2_def)
  define n where "n = round_half_even (\<bar>x\<bar> / q)"
  have xq: "\<bar>x\<bar> / q = x * 2 ^ k" using xpos by (simp add: qk)
  have "(of_int (a * 2 ^ k) :: rat) \<le> x * 2 ^ k" using ax by simp
  then have n_lo: "a * 2 ^ k \<le> n" unfolding n_def xq by (rule round_half_even_ge)
  have "x * 2 ^ k \<le> (of_int (b * 2 ^ k) :: rat)" using xb by simp
  then have n_hi: "n \<le> b * 2 ^ k" unfolding n_def xq by (rule round_half_even_le)
  define y where "y = of_int n * q"
  have "(of_int (a * 2 ^ k) :: rat) \<le> of_int n" using n_lo by (simp only: of_int_le_iff)
  then have y_lo: "of_int a \<le> y" by (simp add: y_def qk pos_le_divide_eq)
  have "(of_int n :: rat) \<le> of_int (b * 2 ^ k)" using n_hi by (simp only: of_int_le_iff)
  then have y_hi: "y \<le> of_int b" by (simp add: y_def qk pos_divide_le_eq)
  have ypos: "0 < y" using y_lo a by simp
  have "y < 2 ^ 53" using y_hi \<open>(of_int b :: rat) < of_int (2 ^ 53)\<close> by simp
  also have "\<dots> \<le> (2::rat) ^ 1024" by (rule power_increasing) simp_all
  finally have ysmall: "\<not> 2 ^ 1024 \<le> y" by simp
  have "fl x = Fin y"
    using xpos ypos ysmall unfolding fl_def Let_def q_def [symmetric] n_def [symmetric] y_def [symmetric]
    by simp
  with y_lo y_hi show ?thesis by blast
qed

lemma fl_int:
  assumes "0 < a" "a < 2 ^ 53"
  shows "fl (of_int a) = Fin (of_int a)"
  using fl_between [of a "of_int a" a] assms by auto

lemma fl_neg:
  assumes "0 < x" "fl x = Fin y" "0 < y"
  shows "fl (- x) = Fin (- y)"
  using assms unfolding fl_def Let_def by (simp split: if_splits)

lemma round_half_even_of_int: "round_half_even (of_int n) = n"
  by (simp add: round_half_even_def)

lemma fl_dyadic:
  assumes a: "0 < a" "a < 2 ^ 53" and k: "k \<le> 1074"
  shows "fl (of_int a / 2 ^ k) = Fin (of_int a / 2 ^ k)"
proof -
  define x :: rat where "x = of_int a / 2 ^ k"
  have xpos: "0 < x" using a by (simp add: x_def)
  have "(of_int a :: rat) < of_int (2 ^ 53)" using a by (simp only: of_int_less_iff)
  then have "x < 2 ^ 53 / 2 ^ k" by (simp add: x_def divide_strict_right_mono)
  also have "\<dots> = 2 powi (53 - int k)" by (simp add: power_int_diff)
  finally have xlt: "x < 2 powi (53 - int k)" .
  have "(2::rat) powi binade x \<le> x" using binade_le [OF xpos] by (simp add: pow2_powi)
  then have "(2::rat) powi binade x < 2 powi (53 - int k)" using xlt by simp
  have e: "binade x < 53 - int k"
  proof (rule ccontr)
    assume "\<not> binade x < 53 - int k"
    then have "53 - int k \<le> binade x" by simp
    then have "(2::rat) powi (53 - int k) \<le> 2 powi binade x"
      by (rule power_int_increasing) simp
    with \<open>(2::rat) powi binade x < 2 powi (53 - int k)\<close> show False by simp
  qed
  define j where "j = nat (52 - max (binade x) (- 1022))"
  have jk: "k \<le> j" using e k by (simp add: j_def)
  have q: "pow2 (max (binade \<bar>x\<bar>) (- 1022) - 52) = 1 / 2 ^ j"
    using e xpos by (simp add: pow2_def j_def)
  have "x / (1 / 2 ^ j) = of_int a * (2 ^ j / 2 ^ k)" by (simp add: x_def)
  also have "(2::rat) ^ j / 2 ^ k = 2 ^ (j - k)" using jk by (simp add: power_diff)
  finally have xq: "\<bar>x\<bar> / (1 / 2 ^ j) = of_int (a * 2 ^ (j - k))" using xpos by simp
  have "of_int (a * 2 ^ (j - k)) * (1 / 2 ^ j) = of_int a * ((2::rat) ^ (j - k) / 2 ^ j)"
    by simp
  also have "(2::rat) ^ (j - k) / 2 ^ j = 1 / 2 ^ k"
    using jk by (simp add: power_diff)
  finally have y: "of_int (a * 2 ^ (j - k)) * (1 / 2 ^ j) = x" by (simp add: x_def)
  have "(of_int a :: rat) / 2 ^ k \<le> of_int a / 1"
    using a by (intro frac_le) simp_all
  then have "x \<le> of_int a" by (simp add: x_def)
  also have "\<dots> < 2 ^ 53" using \<open>(of_int a :: rat) < of_int (2 ^ 53)\<close> by simp
  also have "\<dots> \<le> (2::rat) ^ 1024" by (rule power_increasing) simp_all
  finally have small: "\<not> 2 ^ 1024 \<le> x" by simp
  have "fl x = Fin x"
    unfolding fl_def Let_def q xq round_half_even_of_int y using xpos small by simp
  then show ?thesis by (simp add: x_def)
qed

section \<open>Properties of the duration\<close>

lemma clamp_Fin: "clamp (Fin r) (Fin (1 / 4)) (Fin 4) = Fin (max (1 / 4) (min 4 r))"
  by (simp add: clamp_def Math_max_def Math_min_def min_step_def max_step_def num_less_def)

lemma clamp_special:
  "clamp PInf (Fin (1 / 4)) (Fin 4) = Fin 4"
  "clamp NInf (Fin (1 / 4)) (Fin 4) = Fin (1 / 4)"
  "clamp NZero (Fin (1 / 4)) (Fin 4) = Fin (1 / 4)"
  "clamp NaN (Fin (1 / 4)) (Fin 4) = NaN"
  by (simp_all add: clamp_def Math_max_def Math_min_def min_step_def max_step_def num_less_def)

lemma clamp_range:
  assumes "n \<noteq> NaN"
  shows "\<exists>r. clamp n (Fin (1 / 4)) (Fin 4) = Fin r \<and> 1 / 4 \<le> r \<and> r \<le> 4"
proof (cases n)
  case (Fin r)
  then show ?thesis by (simp add: clamp_Fin)
next
  case NZero
  then show ?thesis by (intro exI [of _ "1 / 4"]) (simp add: clamp_special)
next
  case NInf
  then show ?thesis by (intro exI [of _ "1 / 4"]) (simp add: clamp_special)
qed (use assms in \<open>simp_all add: clamp_special\<close>)

lemma round_range:
  assumes "1 / 4 \<le> r" "r \<le> 4"
  shows "\<exists>k. Math_round (js_mul (Fin 900) (Fin r)) = Fin (of_int k) \<and> 225 \<le> k \<and> k \<le> 3600"
proof -
  have "of_int 225 \<le> 900 * r" "900 * r \<le> of_int 3600" using assms by simp_all
  then obtain y where y: "fl (900 * r) = Fin y" "of_int 225 \<le> y" "y \<le> of_int 3600"
    using fl_between [of 225 "900 * r" 3600] by auto
  have m: "js_mul (Fin 900) (Fin r) = Fin y"
    using assms y by (simp add: js_mul_def)
  define k where "k = \<lfloor>y + 1 / 2\<rfloor>"
  have "of_int 225 \<le> y + 1 / 2" using y by simp
  then have k1: "225 \<le> k" unfolding k_def by (simp only: le_floor_iff)
  have "y + 1 / 2 < of_int 3601" using y by simp
  then have "k < 3601" unfolding k_def by (simp only: floor_less_iff)
  then have k2: "k \<le> 3600" by simp
  have "Math_round (Fin y) = Fin (of_int k)" using k1 by (simp add: k_def Let_def)
  with m k1 k2 show ?thesis by auto
qed

lemma computeDurationMs_range:
  "\<exists>k. computeDurationMs v = Fin (of_int k) \<and> 225 \<le> k \<and> k \<le> 3600"
proof -
  define m where "m = (if truthy (Number v) then Number v else Fin 1)"
  have "m \<noteq> NaN" by (simp add: m_def truthy_def)
  then obtain r where r: "clamp m (Fin (1 / 4)) (Fin 4) = Fin r" "1 / 4 \<le> r" "r \<le> 4"
    using clamp_range by blast
  have "computeDurationMs v = Math_round (js_mul (Fin 900) (Fin r))"
    by (simp add: computeDurationMs_def Let_def m_def [symmetric] r)
  then show ?thesis using round_range [OF r(2,3)] by simp
qed

lemma duration_Fin:
  "Math_round (js_mul (Fin 900) (clamp (Fin r) (Fin (1 / 4)) (Fin 4))) =
     Math_round (fl (900 * max (1 / 4) (min 4 r)))"
proof -
  have "1 / 4 \<le> max (1 / 4) (min 4 r)" by (rule max.cobounded1)
  then have "max (1 / 4) (min 4 r) \<noteq> 0" by simp
  then show ?thesis by (simp add: clamp_Fin js_mul_def)
qed

lemma Math_round_int:
  assumes "k \<noteq> 0"
  shows "Math_round (Fin (of_int k)) = Fin (of_int k)"
proof -
  have "\<lfloor>(of_int k :: rat) + 1 / 2\<rfloor> = k" by (simp add: floor_unique)
  then show ?thesis using assms by (simp add: Let_def)
qed

lemma duration_one:
  "Math_round (js_mul (Fin 900) (clamp (Fin 1) (Fin (1 / 4)) (Fin 4))) = Fin 900"
  using fl_int [of 900] Math_round_int [of 900] by (simp add: duration_Fin)

lemma computeDurationMs_falsy:
  assumes "\<not> truthy (Number v)"
  shows "computeDurationMs v = Fin 900"
  using assms by (simp add: computeDurationMs_def duration_one)

lemma spec_clamp_max_min: "spec_clamp x (1 / 4) 4 = max (1 / 4) (min 4 x)"
  by (simp add: spec_clamp_def max_def min_def)

lemma spec_clamp_range: "1 / 4 \<le> spec_clamp x (1 / 4) 4" "spec_clamp x (1 / 4) 4 \<le> 4"
  by (simp_all add: spec_clamp_def)

lemma Math_round_fl:
  assumes "1 / 4 \<le> c" "c \<le> 4"
  shows "Math_round (fl (900 * c)) = Fin (of_int (round (val (fl (900 * c)))))"
proof -
  have "of_int 225 \<le> 900 * c" "900 * c \<le> of_int 3600" using assms by simp_all
  then obtain y where y: "fl (900 * c) = Fin y" "of_int 225 \<le> y" "y \<le> of_int 3600"
    using fl_between [of 225 "900 * c" 3600] by auto
  have "of_int 225 \<le> y + 1 / 2" using y by simp
  then have "225 \<le> \<lfloor>y + 1 / 2\<rfloor>" by (simp only: le_floor_iff)
  then have nz: "\<lfloor>y + 1 / 2\<rfloor> \<noteq> 0" by linarith
  have "Math_round (Fin y) = Fin (of_int \<lfloor>y + 1 / 2\<rfloor>)"
    using nz by (simp only: Math_round.simps Let_def if_False)
  then show ?thesis by (simp only: y(1) val.simps round_def)
qed

lemma computeDurationMs_spec:
  assumes "Number v = Fin r" "r \<noteq> 0"
  shows "computeDurationMs v = spec_duration r"
proof -
  have "computeDurationMs v = Math_round (fl (900 * max (1 / 4) (min 4 r)))"
    using assms by (simp add: computeDurationMs_def truthy_def duration_Fin)
  also have "\<dots> = Math_round (fl (900 * spec_clamp r (1 / 4) 4))"
    by (simp only: spec_clamp_max_min)
  also have "\<dots> = spec_duration r"
    unfolding spec_duration_def by (rule Math_round_fl) (rule spec_clamp_range)+
  finally show ?thesis .
qed


lemma computeDurationMs_inf:
  "Number v = PInf \<Longrightarrow> computeDurationMs v = Fin 3600"
  "Number v = NInf \<Longrightarrow> computeDurationMs v = Fin 225"
proof -
  have a: "js_mul (Fin 900) (Fin 4) = Fin 3600"
    using fl_int [of 3600] by (simp add: js_mul_def)
  have b: "js_mul (Fin 900) (Fin (1 / 4)) = Fin 225"
    using fl_int [of 225] by (simp add: js_mul_def)
  show "Number v = PInf \<Longrightarrow> computeDurationMs v = Fin 3600"
    using Math_round_int [of 3600] by (simp add: computeDurationMs_def truthy_def clamp_special a)
  show "Number v = NInf \<Longrightarrow> computeDurationMs v = Fin 225"
    using Math_round_int [of 225] by (simp add: computeDurationMs_def truthy_def clamp_special b)
qed

lemma spec_duration_int:
  assumes "900 * spec_clamp x (1 / 4) 4 = of_int k" "0 < k" "k < 2 ^ 53"
  shows "spec_duration x = Fin (of_int k)"
proof -
  have "fl (of_int k) = Fin (of_int k)" using assms(2,3) by (rule fl_int)
  then show ?thesis by (simp add: spec_duration_def assms(1))
qed

lemma spec_duration_values:
  "spec_duration 0 = Fin 225"
  "spec_duration 3 = Fin 2700"
  "spec_duration 100 = Fin 3600"
  "spec_duration (1 / 8) = Fin 225"
proof -
  show "spec_duration 0 = Fin 225"
    using spec_duration_int [of 0 225] by (simp add: spec_clamp_def)
  show "spec_duration 3 = Fin 2700"
    using spec_duration_int [of 3 2700] by (simp add: spec_clamp_def)
  show "spec_duration 100 = Fin 3600"
    using spec_duration_int [of 100 3600] by (simp add: spec_clamp_def)
  show "spec_duration (1 / 8) = Fin 225"
    using spec_duration_int [of "1 / 8" 225] by (simp add: spec_clamp_def)
qed

lemma spec_duration_fraction: "spec_duration (9 / 8) = Fin 1013"
proof -
  have c: "900 * spec_clamp (9 / 8) (1 / 4) 4 = (of_int 2025 / 2 ^ 1 :: rat)"
    by (simp add: spec_clamp_def)
  have f: "fl (of_int 2025 / 2 ^ 1) = Fin (of_int 2025 / 2 ^ 1)"
    by (rule fl_dyadic) simp_all
  have "\<lfloor>(of_int 2025 / 2 ^ 1 :: rat) + 1 / 2\<rfloor> = 1013"
    by (rule floor_unique) simp_all
  then have r: "round (of_int 2025 / 2 ^ 1 :: rat) = 1013" by (simp only: round_def)
  show ?thesis unfolding spec_duration_def c f val.simps r by simp
qed

lemma StringToNumber_empty: "StringToNumber [] = Fin 0"
  by (simp add: StringToNumber_def trim_def)

lemma StringToNumber_abc: "StringToNumber ''abc'' = NaN"
  by code_simp

lemma StringToNumber_100: "StringToNumber ''100'' = Fin 100"
proof -
  have "unsigned_decimal ''100'' = Some 100"
    by (simp add: unsigned_decimal_def is_digit_def digit_of_def exponent_part_def
        scale10_def digits_val_def)
  then show ?thesis
    using fl_int [of 100]
    by (simp add: StringToNumber_def trim_def is_ws_def decimal_literal_def)
qed

lemma StringToNumber_eighth: "StringToNumber ''0.125'' = Fin (1 / 8)"
proof -
  have "unsigned_decimal ''0.125'' = Some (1 / 8)"
    by (simp add: unsigned_decimal_def is_digit_def digit_of_def exponent_part_def
        scale10_def digits_val_def)
  then show ?thesis
    using fl_dyadic [of 1 3]
    by (simp add: StringToNumber_def trim_def is_ws_def decimal_literal_def)
qed

lemma StringToNumber_fraction: "StringToNumber ''1.125'' = Fin (9 / 8)"
proof -
  have "unsigned_decimal ''1.125'' = Some (9 / 8)"
    by (simp add: unsigned_decimal_def is_digit_def digit_of_def exponent_part_def
        scale10_def digits_val_def)
  then show ?thesis
    using fl_dyadic [of 9 3]
    by (simp add: StringToNumber_def trim_def is_ws_def decimal_literal_def)
qed

lemma fl_2_53: "fl (2 ^ 53) = Fin (2 ^ 53)"
proof -
  have b: "binade (2 ^ 53) = 53" by code_simp
  have r: "round_half_even (2 ^ 53 / 2) = 2 ^ 52" by code_simp
  have p: "pow2 1 = 2" by (simp add: pow2_def)
  have a: "\<bar>2 ^ 53 :: rat\<bar> = 2 ^ 53" by simp
  have "(2::rat) ^ 53 < 2 ^ 1024" by (rule power_strict_increasing) simp_all
  then have s: "\<not> (2::rat) ^ 1024 \<le> 2 ^ 53" by simp
  have m: "max (53::int) (- 1022) - 52 = 1" by simp
  have y: "(of_int (2 ^ 52) :: rat) * 2 = 2 ^ 53" by simp
  have nz: "\<not> (2 ^ 53 :: rat) < 0" "(2 ^ 53 :: rat) \<noteq> 0" by simp_all
  show ?thesis
    unfolding fl_def Let_def a b m p r y using s nz by (simp only: if_False)
qed


lemma fl_of_int:
  assumes "- (2 ^ 53) \<le> i" "i \<le> 2 ^ 53"
  shows "fl (of_int i) = Fin (of_int i)"
proof -
  consider "i = 0" | "0 < i" "i < 2 ^ 53" | "i = 2 ^ 53" | "i < 0" "- (2 ^ 53) < i" | "i = - (2 ^ 53)"
    using assms by linarith
  then show ?thesis
  proof cases
    case 1
    then show ?thesis by (simp add: fl_def)
  next
    case 2
    then show ?thesis by (rule fl_int)
  next
    case 3
    then show ?thesis using fl_2_53 by simp
  next
    case 4
    then have "fl (of_int (- i)) = Fin (of_int (- i))" by (intro fl_int) simp_all
    then have "fl (- of_int (- i)) = Fin (- of_int (- i))" using 4 by (intro fl_neg) simp_all
    then show ?thesis by simp
  next
    case 5
    have "fl (- (2 ^ 53)) = Fin (- (2 ^ 53))" using fl_2_53 by (intro fl_neg) simp_all
    then show ?thesis using 5 by simp
  qed
qed

section \<open>Properties of the counter operations\<close>

lemma js_add_int:
  assumes "- (2 ^ 53) \<le> i" "i + 1 \<le> 2 ^ 53"
  shows "js_add (Fin (of_int i)) (Fin 1) = Fin (of_int (i + 1))"
proof -
  have "js_add (Fin (of_int i)) (Fin 1) = fl (of_int (i + 1))" by (simp add: js_add_def)
  then show ?thesis using assms by (simp only: fl_of_int)
qed

lemma inc_int:
  assumes "st ! a = JNum (Fin (of_int i))" "- (2 ^ 53) \<le> i" "i + 1 \<le> 2 ^ 53"
  shows "inc a st = (JNum (Fin (of_int (i + 1))), st[a := JNum (Fin (of_int (i + 1)))])"
  using assms by (simp add: inc_def plus_one_def js_add_int Let_def)




section \<open>Properties of the listeners\<close>

lemma validate_literals:
  "validate_token ''run'' = None"
  "validate_token ''closing'' = None"
  "validate_token ''open'' = None"
  "validate_token ''is-flipped'' = None"
  "validate_token ''on'' = None"
  by (simp_all add: validate_token_def ascii_ws_def)

lemma animateBtn_click_eq:
  "animateBtn_click s =
     (case box (doc s) of
        None \<Rightarrow> (s, Some TypeError)
      | Some b \<Rightarrow>
          (s\<lparr>doc := (doc s)\<lparr>box := Some (b\<lparr>classList := removeAll ''run'' (classList b) @ [''run'']\<rparr>)\<rparr>\<rparr>,
           None))"
  by (simp add: animateBtn_click_def classList_remove_def classList_add_def validate_literals
      add_token_def remove_token_def split: option.splits)

lemma openModal_eq:
  "openModal s =
     (case modal (doc s) of
        None \<Rightarrow> (s, Some TypeError)
      | Some m \<Rightarrow>
          (s\<lparr>doc := (doc s)\<lparr>modal := Some (setAttribute ''aria-hidden'' ''false''
              (m\<lparr>classList := add_token (removeAll ''closing'' (classList m)) ''open''\<rparr>))\<rparr>\<rparr>,
           None))"
  by (simp add: openModal_def classList_remove_def classList_add_def validate_literals
      remove_token_def split: option.splits)

lemma closeModal_eq:
  "closeModal s =
     (case modal (doc s) of
        None \<Rightarrow> (s, Some TypeError)
      | Some m \<Rightarrow>
          (setTimeout 260
             (s\<lparr>doc := (doc s)\<lparr>modal := Some (m\<lparr>classList := add_token (classList m) ''closing''\<rparr>)\<rparr>\<rparr>),
           None))"
  by (simp add: closeModal_def classList_add_def validate_literals split: option.splits)

lemma closeModal_timeout_eq:
  "closeModal_timeout s =
     (case modal (doc s) of
        None \<Rightarrow> (s, Some TypeError)
      | Some m \<Rightarrow>
          (s\<lparr>doc := (doc s)\<lparr>modal := Some (setAttribute ''aria-hidden'' ''true''
              (m\<lparr>classList := removeAll ''closing'' (removeAll ''open'' (classList m))\<rparr>))\<rparr>\<rparr>,
           None))"
  by (simp add: closeModal_timeout_def classList_remove_def validate_literals remove_token_def
      split: option.splits)

lemma classList_toggle_valid:
  assumes "validate_token c = None"
  shows "classList_toggle c force xs =
     (if c \<in> set xs then
        (if force = None \<or> force = Some False then Inr (False, removeAll c xs) else Inr (True, xs))
      else
        (if force = None \<or> force = Some True then Inr (True, xs @ [c]) else Inr (False, xs)))"
  using assms by (simp add: classList_toggle_def add_token_def remove_token_def)

lemma AppState_listeners:
  "AppState (fst (scopeBtn_click s)) = AppState s"
  "AppState (fst (animateBtn_click s)) = AppState s"
  "AppState (fst (flipBtn_click s)) = AppState s"
  "AppState (fst (startLoader_click s)) = AppState s"
  "AppState (fst (stopLoader_click s)) = AppState s"
  "AppState (fst (openModal s)) = AppState s"
  "AppState (fst (closeModal s)) = AppState s"
  "AppState (fst (closeModal_timeout s)) = AppState s"
  "AppState (fst (document_keydown key s)) = AppState s"
  "AppState (user_input v s) = AppState s"
  by (simp_all add: scopeBtn_click_def animateBtn_click_eq flipBtn_click_def
      startLoader_click_def stopLoader_click_def openModal_eq closeModal_eq
      closeModal_timeout_eq document_keydown_def user_input_def setTimeout_def Let_def
      split: option.splits sum.splits prod.splits)

lemma AppState_calcBtn_click:
  "animationRuns (AppState (fst (calcBtn_click s))) = animationRuns (AppState s) \<and>
   (AppState (fst (calcBtn_click s)) = AppState s \<or>
    (\<exists>v. lastDurationMs (AppState (fst (calcBtn_click s))) = computeDurationMs v))"
  by (auto simp add: calcBtn_click_def Let_def split: option.splits)

lemma AppState_step:
  assumes "step e s = Some s'"
  shows "animationRuns (AppState s') = animationRuns (AppState s) \<and>
   (lastDurationMs (AppState s') = lastDurationMs (AppState s) \<or>
    (\<exists>v. lastDurationMs (AppState s') = computeDurationMs v))"
proof (cases e)
  case CalcClick
  then show ?thesis using assms AppState_calcBtn_click [of s] by auto
next
  case (TimerFire i)
  then show ?thesis using assms
    by (auto simp add: timer_fire_def AppState_listeners split: option.splits if_splits)
qed (use assms in \<open>auto simp add: AppState_listeners\<close>)

lemma AppState_run:
  assumes "run es s = Some s'"
  shows "animationRuns (AppState s') = animationRuns (AppState s) \<and>
   (lastDurationMs (AppState s') = lastDurationMs (AppState s) \<or>
    (\<exists>v. lastDurationMs (AppState s') = computeDurationMs v))"
  using assms
proof (induction es arbitrary: s)
  case Nil
  then show ?case by simp
next
  case (Cons e es)
  then obtain s1 where s1: "step e s = Some s1" "run es s1 = Some s'"
    by (auto split: option.splits)
  show ?case using AppState_step [OF s1(1)] Cons.IH [OF s1(2)] by auto
qed

lemma AppState_load:
  "AppState (load d) = \<lparr>animationRuns = Fin 0, lastDurationMs = Fin 900\<rparr>"
  by (simp add: load_def makeCounter_def Let_def)

lemma StringToNumber_3: "StringToNumber ''3'' = Fin 3"
proof -
  have "unsigned_decimal ''3'' = Some 3" by code_simp
  then show ?thesis
    using fl_int [of 3]
    by (simp add: StringToNumber_def trim_def is_ws_def decimal_literal_def)
qed

lemma computeDurationMs_3: "computeDurationMs (JStr ''3'') = Fin 2700"
  using computeDurationMs_spec [of "JStr ''3''" 3]
  by (simp add: StringToNumber_3 spec_duration_values)

lemma run_calc:
  "run [UserInput ''3'', CalcClick] (load doc0) =
     Some ((load doc0)\<lparr>doc := doc0\<lparr>durationInput := Some (JStr ''3'')\<rparr>,
        AppState := \<lparr>animationRuns = Fin 0, lastDurationMs = Fin 2700\<rparr>\<rparr>)"
  by (simp add: load_def makeCounter_def doc0_def user_input_def calcBtn_click_def
      computeDurationMs_3)

lemma run_scope:
  "run [ScopeClick] (load doc0) = Some ((load doc0)\<lparr>closures := [JNum (Fin 2)]\<rparr>)"
proof -
  have i1: "inc 0 [JNum (Fin 0)] = (JNum (Fin 1), [JNum (Fin 1)])"
    using inc_int [of "[JNum (Fin 0)]" 0 0] by simp
  have i2: "inc 0 [JNum (Fin 1)] = (JNum (Fin 2), [JNum (Fin 2)])"
    using inc_int [of "[JNum (Fin 1)]" 0 1] by simp
  show ?thesis
    by (simp add: load_def makeCounter_def doc0_def scopeBtn_click_def i1 i2)
qed

section \<open>Properties of the timers\<close>

lemma map_of_filter_other:
  assumes "i \<noteq> j"
  shows "map_of (filter (\<lambda>t. fst t \<noteq> j) xs) i = map_of xs i"
  using assms by (induction xs) auto

lemma modal_listeners:
  "modal_present (fst (calcBtn_click s)) = modal_present s"
  "modal_present (fst (scopeBtn_click s)) = modal_present s"
  "modal_present (fst (animateBtn_click s)) = modal_present s"
  "modal_present (fst (flipBtn_click s)) = modal_present s"
  "modal_present (fst (startLoader_click s)) = modal_present s"
  "modal_present (fst (stopLoader_click s)) = modal_present s"
  "modal_present (fst (openModal s)) = modal_present s"
  "modal_present (fst (closeModal s)) = modal_present s"
  "modal_present (fst (closeModal_timeout s)) = modal_present s"
  "modal_present (user_input v s) = modal_present s"
  "modal_present (s\<lparr>now := t\<rparr>) = modal_present s"
  "modal_present (s\<lparr>timers := ts\<rparr>) = modal_present s"
  by (simp_all add: modal_present_def calcBtn_click_def scopeBtn_click_def animateBtn_click_eq
      flipBtn_click_def startLoader_click_def stopLoader_click_def openModal_eq closeModal_eq
      closeModal_timeout_eq user_input_def setTimeout_def Let_def
      split: option.splits sum.splits prod.splits)

lemma timers_listeners:
  "timers (fst (calcBtn_click s)) = timers s"
  "timers (fst (scopeBtn_click s)) = timers s"
  "timers (fst (animateBtn_click s)) = timers s"
  "timers (fst (flipBtn_click s)) = timers s"
  "timers (fst (startLoader_click s)) = timers s"
  "timers (fst (stopLoader_click s)) = timers s"
  "timers (fst (openModal s)) = timers s"
  "timers (fst (closeModal_timeout s)) = timers s"
  "timers (user_input v s) = timers s"
  by (simp_all add: calcBtn_click_def scopeBtn_click_def animateBtn_click_eq flipBtn_click_def
      startLoader_click_def stopLoader_click_def openModal_eq
      closeModal_timeout_eq user_input_def Let_def
      split: option.splits sum.splits prod.splits)

lemma timers_closeModal:
  "timers (fst (closeModal s)) =
     (if modal (doc s) = None then timers s else timers s @ [(next_timer s, now s + 260)])"
  by (simp add: closeModal_eq setTimeout_def split: option.splits)

lemma pending_closeModal:
  assumes "map_of (timers s) i = Some due"
  shows "map_of (timers (fst (closeModal s))) i = Some due"
  using assms by (simp add: timers_closeModal map_add_Some_iff)

lemma modal_keydown: "modal_present (fst (document_keydown key s)) = modal_present s"
  by (simp add: document_keydown_def modal_listeners split: option.splits)

lemma pending_keydown:
  assumes "map_of (timers s) i = Some due"
  shows "map_of (timers (fst (document_keydown key s))) i = Some due"
  using assms by (simp add: document_keydown_def pending_closeModal split: option.splits)

lemma pending_step:
  assumes "step e s = Some s'" "e \<noteq> TimerFire i"
    and "map_of (timers s) i = Some due" "modal_present s"
  shows "map_of (timers s') i = Some due \<and> modal_present s'"
proof (cases e)
  case (TimerFire j)
  then have ij: "i \<noteq> j" using assms(2) by simp
  let ?s1 = "s\<lparr>timers := filter (\<lambda>t. fst t \<noteq> j) (timers s)\<rparr>"
  have s': "s' = fst (closeModal_timeout ?s1)"
    using assms(1) TimerFire by (simp add: timer_fire_def split: option.splits if_splits)
  have "map_of (timers ?s1) i = Some due"
    using assms(3) ij by (simp add: map_of_filter_other)
  moreover have "modal_present ?s1" using assms(4) by (simp add: modal_listeners)
  ultimately show ?thesis
    unfolding s' by (simp only: timers_listeners modal_listeners simp_thms)
qed (use assms in \<open>auto simp add: timers_listeners modal_listeners modal_keydown
    pending_closeModal pending_keydown\<close>)

lemma pending_run:
  assumes "run es s = Some s'" "TimerFire i \<notin> set es"
    and "map_of (timers s) i = Some due" "modal_present s"
  shows "map_of (timers s') i = Some due \<and> modal_present s'"
  using assms
proof (induction es arbitrary: s)
  case Nil
  then show ?case by simp
next
  case (Cons e es)
  then obtain s1 where s1: "step e s = Some s1" "run es s1 = Some s'"
    by (auto split: option.splits)
  have "e \<noteq> TimerFire i" "TimerFire i \<notin> set es" using Cons.prems(2) by auto
  then show ?case
    using pending_step [OF s1(1) _ Cons.prems(3,4)] Cons.IH [OF s1(2)] by blast
qed

lemma fully_closed_timeout:
  assumes "modal_present s"
  shows "fully_closed (fst (closeModal_timeout s))"
  using assms
  by (auto simp add: modal_present_def closeModal_timeout_eq fully_closed_def classList_contains_def setAttribute_def)

lemma timer_fire_pending:
  assumes "map_of (timers s) i = Some due" "modal_present s"
  shows "(timer_fire i s = None \<longleftrightarrow> now s < due) \<and>
         (\<forall>s1. timer_fire i s = Some s1 \<longrightarrow> fully_closed s1)"
  using assms by (auto simp add: timer_fire_def fully_closed_timeout modal_listeners)

lemma next_timer_listeners:
  "next_timer (fst (calcBtn_click s)) = next_timer s"
  "next_timer (fst (scopeBtn_click s)) = next_timer s"
  "next_timer (fst (animateBtn_click s)) = next_timer s"
  "next_timer (fst (flipBtn_click s)) = next_timer s"
  "next_timer (fst (startLoader_click s)) = next_timer s"
  "next_timer (fst (stopLoader_click s)) = next_timer s"
  "next_timer (fst (openModal s)) = next_timer s"
  "next_timer (fst (closeModal_timeout s)) = next_timer s"
  "next_timer (user_input v s) = next_timer s"
  by (simp_all add: calcBtn_click_def scopeBtn_click_def animateBtn_click_eq flipBtn_click_def
      startLoader_click_def stopLoader_click_def openModal_eq
      closeModal_timeout_eq user_input_def Let_def
      split: option.splits sum.splits prod.splits)

lemma fresh_listeners:
  "timers_fresh (fst (calcBtn_click s)) = timers_fresh s"
  "timers_fresh (fst (scopeBtn_click s)) = timers_fresh s"
  "timers_fresh (fst (animateBtn_click s)) = timers_fresh s"
  "timers_fresh (fst (flipBtn_click s)) = timers_fresh s"
  "timers_fresh (fst (startLoader_click s)) = timers_fresh s"
  "timers_fresh (fst (stopLoader_click s)) = timers_fresh s"
  "timers_fresh (fst (openModal s)) = timers_fresh s"
  "timers_fresh (fst (closeModal_timeout s)) = timers_fresh s"
  "timers_fresh (user_input v s) = timers_fresh s"
  "timers_fresh (s\<lparr>now := t\<rparr>) = timers_fresh s"
  by (simp_all add: timers_fresh_def timers_listeners next_timer_listeners)

lemma fresh_closeModal:
  assumes "timers_fresh s"
  shows "timers_fresh (fst (closeModal s))"
  using assms
  by (auto simp add: timers_fresh_def closeModal_eq setTimeout_def list_all_iff
      split: option.splits)

lemma fresh_keydown:
  assumes "timers_fresh s"
  shows "timers_fresh (fst (document_keydown key s))"
  using assms by (simp add: document_keydown_def fresh_closeModal split: option.splits)

lemma fresh_step:
  assumes "step e s = Some s'" "timers_fresh s"
  shows "timers_fresh s'"
proof (cases e)
  case (TimerFire j)
  let ?s1 = "s\<lparr>timers := filter (\<lambda>t. fst t \<noteq> j) (timers s)\<rparr>"
  have s': "s' = fst (closeModal_timeout ?s1)"
    using assms(1) TimerFire by (simp add: timer_fire_def split: option.splits if_splits)
  have "timers_fresh ?s1" using assms(2) by (simp add: timers_fresh_def list_all_iff)
  then show ?thesis unfolding s' by (simp only: fresh_listeners)
qed (use assms in \<open>auto simp add: fresh_listeners fresh_closeModal fresh_keydown\<close>)

lemma fresh_run:
  assumes "run es s = Some s'" "timers_fresh s"
  shows "timers_fresh s'"
  using assms
proof (induction es arbitrary: s)
  case Nil
  then show ?case by simp
next
  case (Cons e es)
  then obtain s1 where s1: "step e s = Some s1" "run es s1 = Some s'"
    by (auto split: option.splits)
  show ?case using Cons.IH [OF s1(2)] fresh_step [OF s1(1) Cons.prems(2)] by simp
qed

lemma fresh_load: "timers_fresh (load d)"
  by (simp add: timers_fresh_def load_def makeCounter_def Let_def)

lemma closeModal_pending:
  assumes "timers_fresh s" "modal (doc s) = Some m"
  shows "closeModal s =
     (setTimeout 260
        (s\<lparr>doc := (doc s)\<lparr>modal := Some (m\<lparr>classList := add_token (classList m) ''closing''\<rparr>)\<rparr>\<rparr>),
      None)"
    and "map_of (timers (fst (closeModal s))) (next_timer s) = Some (now s + 260)"
proof -
  show "closeModal s =
     (setTimeout 260
        (s\<lparr>doc := (doc s)\<lparr>modal := Some (m\<lparr>classList := add_token (classList m) ''closing''\<rparr>)\<rparr>\<rparr>),
      None)"
    using assms(2) by (simp add: closeModal_eq)
  have "next_timer s \<notin> fst ` set (timers s)"
    using assms(1) by (auto simp add: timers_fresh_def list_all_iff)
  then have "map_of (timers s) (next_timer s) = None" by (simp add: map_of_eq_None_iff)
  then show "map_of (timers (fst (closeModal s))) (next_timer s) = Some (now s + 260)"
    using assms(2) by (simp add: timers_closeModal map_add_def)
qed

lemma load_doc0:
  "load doc0 = \<lparr>doc = doc0, AppState = \<lparr>animationRuns = Fin 0, lastDurationMs = Fin 900\<rparr>,
     closures = [JNum (Fin 0)], incrementRuns = 0, timers = [], next_timer = 0, now = 0\<rparr>"
  by (simp add: load_def makeCounter_def)

lemma modal_doc0:
  "modal doc0 = Some \<lparr>classList = [''modal''], attributes = [''aria-hidden'' \<mapsto> ''true'']\<rparr>"
  by (simp add: doc0_def)

section \<open>The duration calculator\<close>

text \<open>
  Claim C1 says that \<open>computeDurationMs(m)\<close> equals \<open>round(900 \<times> clamp(m, 0.25, 4))\<close>
  for every multiplier \<open>m\<close>. At the number 0 the code returns 900, the formula 225: a
  converted multiplier that is falsy is replaced by 1 before the clamp.
\<close>

theorem computeDurationMs_zero_counterexample:
  "computeDurationMs (JNum (Fin 0)) = Fin 900 \<and> spec_duration 0 = Fin 225 \<and>
   computeDurationMs (JNum (Fin 0)) \<noteq> spec_duration 0"
  using computeDurationMs_falsy [of "JNum (Fin 0)"]
  by (simp add: truthy_def spec_duration_values)

text \<open>
  Claim C1, amended: when the converted multiplier \<open>Number(m)\<close> is a finite number other
  than zero, \<open>computeDurationMs(m)\<close> equals \<open>round(900 \<times> clamp(Number(m), 0.25, 4))\<close>,
  the product being the binary64 product; when it is \<open>+\<infinity>\<close> or \<open>-\<infinity>\<close> the result is that
  of the nearer bound, 3600 or 225; when it is NaN, the multiplier 1 is used and the
  result is 900.
\<close>

theorem computeDurationMs_formula:
  "(Number v = Fin r \<and> r \<noteq> 0 \<longrightarrow> computeDurationMs v = spec_duration r) \<and>
   (Number v = PInf \<longrightarrow> computeDurationMs v = Fin 3600) \<and>
   (Number v = NInf \<longrightarrow> computeDurationMs v = Fin 225) \<and>
   (Number v = NaN \<longrightarrow> computeDurationMs v = Fin 900)"
proof (intro conjI impI)
  assume "Number v = Fin r \<and> r \<noteq> 0"
  then show "computeDurationMs v = spec_duration r" by (simp add: computeDurationMs_spec)
next
  assume "Number v = NaN"
  then show "computeDurationMs v = Fin 900" by (simp add: computeDurationMs_falsy truthy_def)
qed (simp_all add: computeDurationMs_inf)

theorem computeDurationMs_formula_witness:
  "Number (JStr ''100'') = Fin 100 \<and> computeDurationMs (JStr ''100'') = Fin 3600 \<and>
   Number (JStr ''0.125'') = Fin (1 / 8) \<and> computeDurationMs (JStr ''0.125'') = Fin 225 \<and>
   Number (JStr ''1.125'') = Fin (9 / 8) \<and> computeDurationMs (JStr ''1.125'') = Fin 1013 \<and>
   computeDurationMs (JNum PInf) = Fin 3600 \<and> computeDurationMs (JNum NInf) = Fin 225 \<and>
   computeDurationMs (JNum NaN) = Fin 900"
  using computeDurationMs_formula [of "JStr ''100''" 100]
    computeDurationMs_formula [of "JStr ''0.125''" "1 / 8"]
    computeDurationMs_formula [of "JStr ''1.125''" "9 / 8"]
    computeDurationMs_formula [of "JNum PInf" 0]
    computeDurationMs_formula [of "JNum NInf" 0]
    computeDurationMs_formula [of "JNum NaN" 0]
  by (simp add: StringToNumber_100 StringToNumber_eighth StringToNumber_fraction
      spec_duration_values spec_duration_fraction)

text \<open>
  Claim C5: when the multiplier text is empty or does not parse as a number (its
  conversion is NaN), \<open>computeDurationMs\<close> uses the multiplier 1 and returns 900.
\<close>

theorem computeDurationMs_default:
  assumes "s = [] \<or> StringToNumber s = NaN"
  shows "(if truthy (Number (JStr s)) then Number (JStr s) else Fin 1) = Fin 1 \<and>
         computeDurationMs (JStr s) = Fin 900"
proof -
  have "\<not> truthy (Number (JStr s))"
    using assms by (auto simp add: truthy_def StringToNumber_empty)
  then show ?thesis by (simp add: computeDurationMs_falsy)
qed

theorem computeDurationMs_default_witness:
  "computeDurationMs (JStr '''') = Fin 900 \<and> StringToNumber ''abc'' = NaN \<and>
   computeDurationMs (JStr ''abc'') = Fin 900"
  using computeDurationMs_default [of "''''"] computeDurationMs_default [of "''abc''"]
  by (simp add: StringToNumber_abc)

section \<open>The class toggler: properties\<close>

text \<open>
  Claim C3: for an element that is present, a class name (a token: not empty, without
  ASCII white space) and a boolean force, \<open>toggleClass\<close> returns the force and leaves the
  class in the class list exactly if the force is \<open>true\<close>, whether or not it was there
  before.
\<close>

theorem toggleClass_forced:
  assumes "validate_token className = None"
  shows "\<exists>e'. toggleClass (Some e) className (JBool force) = Inr (force, Some e') \<and>
           classList_contains className (classList e') = force"
  using assms
  by (cases force) (auto simp add: toggleClass_def classList_toggle_valid classList_contains_def)

theorem toggleClass_forced_witness:
  "validate_token ''on'' = None \<and>
   toggleClass (Some \<lparr>classList = [''loader'', ''on''], attributes = Map.empty\<rparr>) ''on'' (JBool False) =
     Inr (False, Some \<lparr>classList = [''loader''], attributes = Map.empty\<rparr>) \<and>
   toggleClass (Some \<lparr>classList = [''loader''], attributes = Map.empty\<rparr>) ''on'' (JBool False) =
     Inr (False, Some \<lparr>classList = [''loader''], attributes = Map.empty\<rparr>) \<and>
   toggleClass (Some \<lparr>classList = [''loader''], attributes = Map.empty\<rparr>) ''on'' (JBool True) =
     Inr (True, Some \<lparr>classList = [''loader'', ''on''], attributes = Map.empty\<rparr>)"
  using toggleClass_forced [of "''on''" "\<lparr>classList = [''loader'', ''on''], attributes = Map.empty\<rparr>" False]
  by (simp add: validate_literals toggleClass_def classList_toggle_valid)

text \<open>
  Claim C8: for an element that is present and a class name (a token: not empty,
  without ASCII white space), \<open>toggleClass\<close> without a force flips the membership of the
  class and returns the membership after the flip; a second call restores the
  membership from before the first.
\<close>

theorem toggleClass_flip:
  assumes "validate_token className = None"
  shows "\<exists>e1 e2.
           toggleClass (Some e) className JUndefined =
             Inr (\<not> classList_contains className (classList e), Some e1) \<and>
           classList_contains className (classList e1) = (\<not> classList_contains className (classList e)) \<and>
           toggleClass (Some e1) className JUndefined =
             Inr (classList_contains className (classList e), Some e2) \<and>
           classList_contains className (classList e2) = classList_contains className (classList e)"
  using assms
  by (auto simp add: toggleClass_def classList_toggle_valid classList_contains_def)

theorem toggleClass_flip_witness:
  "validate_token ''is-flipped'' = None \<and>
   toggleClass (Some \<lparr>classList = [''card''], attributes = Map.empty\<rparr>) ''is-flipped'' JUndefined =
     Inr (True, Some \<lparr>classList = [''card'', ''is-flipped''], attributes = Map.empty\<rparr>) \<and>
   toggleClass (Some \<lparr>classList = [''card'', ''is-flipped''], attributes = Map.empty\<rparr>) ''is-flipped'' JUndefined =
     Inr (False, Some \<lparr>classList = [''card''], attributes = Map.empty\<rparr>)"
  using toggleClass_flip [of "''is-flipped''" "\<lparr>classList = [''card''], attributes = Map.empty\<rparr>"]
  by (simp add: validate_literals toggleClass_def classList_toggle_valid classList_contains_def)

text \<open>
  Claim C9: with an element that is absent, \<open>toggleClass\<close> returns \<open>false\<close> and changes
  nothing, whatever the class name and the force are.
\<close>

theorem toggleClass_absent: "toggleClass None className force = Inr (False, None)"
  by (simp add: toggleClass_def)

section \<open>The closure counter: properties\<close>




section \<open>The shared state\<close>

text \<open>
  Claim C6: for every input, \<open>computeDurationMs\<close> returns an integer from 225 to 3600;
  and so \<open>AppState.lastDurationMs\<close>, 900 when the script is loaded and written by the
  listener of \<open>#calcBtn\<close> only, is such an integer after any events.
\<close>

theorem lastDurationMs_range:
  "(\<exists>k. computeDurationMs v = Fin (of_int k) \<and> 225 \<le> k \<and> k \<le> 3600) \<and>
   (run es (load d) = Some s \<longrightarrow>
      (\<exists>k. lastDurationMs (AppState s) = Fin (of_int k) \<and> 225 \<le> k \<and> k \<le> 3600))"
proof (intro conjI impI)
  show "\<exists>k. computeDurationMs v = Fin (of_int k) \<and> 225 \<le> k \<and> k \<le> 3600"
    by (rule computeDurationMs_range)
next
  assume "run es (load d) = Some s"
  then have "lastDurationMs (AppState s) = Fin (of_int 900) \<or>
      (\<exists>v. lastDurationMs (AppState s) = computeDurationMs v)"
    using AppState_run [of es "load d" s] by (simp add: AppState_load)
  then show "\<exists>k. lastDurationMs (AppState s) = Fin (of_int k) \<and> 225 \<le> k \<and> k \<le> 3600"
  proof
    assume "lastDurationMs (AppState s) = Fin (of_int 900)"
    then show ?thesis by (intro exI [of _ 900]) simp
  next
    assume "\<exists>v. lastDurationMs (AppState s) = computeDurationMs v"
    then show ?thesis using computeDurationMs_range by auto
  qed
qed

theorem lastDurationMs_range_witness:
  "computeDurationMs (JStr ''3'') = Fin 2700 \<and>
   lastDurationMs (AppState (the (run [UserInput ''3'', CalcClick] (load doc0)))) = Fin 2700"
  using lastDurationMs_range [of "JStr ''3''" "[UserInput ''3'', CalcClick]" doc0
     "the (run [UserInput ''3'', CalcClick] (load doc0))"]
  unfolding run_calc by (simp add: computeDurationMs_3)

text \<open>
  Claim C10: no event changes \<open>AppState.animationRuns\<close>; it is 0 in every state of the
  page. The counter \<open>incrementRuns\<close> counts in its own variable.
\<close>

theorem animationRuns_unchanged:
  assumes "run es (load d) = Some s"
  shows "animationRuns (AppState s) = Fin 0"
  using AppState_run [OF assms] by (simp add: AppState_load)

theorem animationRuns_unchanged_witness:
  "run [ScopeClick] (load doc0) = Some ((load doc0)\<lparr>closures := [JNum (Fin 2)]\<rparr>) \<and>
   animationRuns (AppState ((load doc0)\<lparr>closures := [JNum (Fin 2)]\<rparr>)) = Fin 0"
  using animationRuns_unchanged [of "[ScopeClick]" doc0 "(load doc0)\<lparr>closures := [JNum (Fin 2)]\<rparr>"]
  unfolding run_scope by simp

section \<open>The modal: properties\<close>

text \<open>
  Claim C7: a second call of \<open>openModal\<close> leaves the page as the first call has left
  it. With the modal present, a call leaves it without the class \<open>closing\<close>, with the
  class \<open>open\<close> and with \<open>aria-hidden\<close> set to \<open>false\<close>, at once: the call sets no timer
  and takes no time.
\<close>

theorem openModal_idempotent:
  "fst (openModal (fst (openModal s))) = fst (openModal s) \<and>
   (modal (doc s) = Some m \<longrightarrow>
     (\<exists>s1 m1. openModal s = (s1, None) \<and> modal (doc s1) = Some m1 \<and>
       \<not> classList_contains ''closing'' (classList m1) \<and>
       classList_contains ''open'' (classList m1) \<and>
       attributes m1 ''aria-hidden'' = Some ''false'' \<and>
       timers s1 = timers s \<and> now s1 = now s \<and>
       openModal s1 = (s1, None)))"
  by (cases "modal (doc s)")
    (simp_all add: openModal_eq add_token_def setAttribute_def classList_contains_def)

theorem openModal_idempotent_witness:
  "modal (doc (fst (closeModal (load doc0)))) =
     Some \<lparr>classList = [''modal'', ''closing''], attributes = [''aria-hidden'' \<mapsto> ''true'']\<rparr> \<and>
   modal (doc (fst (openModal (fst (closeModal (load doc0)))))) =
     Some \<lparr>classList = [''modal'', ''open''], attributes = [''aria-hidden'' \<mapsto> ''false'']\<rparr> \<and>
   openModal (fst (openModal (fst (closeModal (load doc0))))) =
     openModal (fst (closeModal (load doc0)))"
proof -
  define s where "s = fst (closeModal (load doc0))"
  have m: "modal (doc s) =
     Some \<lparr>classList = [''modal'', ''closing''], attributes = [''aria-hidden'' \<mapsto> ''true'']\<rparr>"
    by (simp add: s_def load_doc0 closeModal_eq modal_doc0 setTimeout_def add_token_def)
  have o: "modal (doc (fst (openModal s))) =
     Some \<lparr>classList = [''modal'', ''open''], attributes = [''aria-hidden'' \<mapsto> ''false'']\<rparr>"
    using m by (simp add: openModal_eq add_token_def setAttribute_def)
  from openModal_idempotent [of s "\<lparr>classList = [''modal'', ''closing''],
      attributes = [''aria-hidden'' \<mapsto> ''true'']\<rparr>"] m
  obtain s1 where "openModal s = (s1, None)" "openModal s1 = (s1, None)"
    by auto
  then have "openModal (fst (openModal s)) = openModal s" by simp
  with m o show ?thesis by (simp add: s_def)
qed

text \<open>
  Claim C4: with the modal present, \<open>closeModal\<close> adds the class \<open>closing\<close> and sets a
  timer that is due 260 milliseconds later. Whatever events follow, further calls of
  \<open>closeModal\<close> and \<open>openModal\<close> among them, the timer stays pending until it fires;
  it cannot fire before the 260 milliseconds have passed and can fire from then on; and
  when it fires it leaves the modal fully closed: without the classes \<open>open\<close> and
  \<open>closing\<close>, and with \<open>aria-hidden\<close> set to \<open>true\<close>.
\<close>

theorem closeModal_closes:
  assumes "run es0 (load d) = Some s" and "modal (doc s) = Some m"
  shows "\<exists>s1 m1. closeModal s = (s1, None) \<and> modal (doc s1) = Some m1 \<and>
      classList_contains ''closing'' (classList m1) \<and>
      (\<forall>es s2. run es s1 = Some s2 \<and> TimerFire (next_timer s) \<notin> set es \<longrightarrow>
         map_of (timers s2) (next_timer s) = Some (now s + 260) \<and>
         (step (TimerFire (next_timer s)) s2 = None \<longleftrightarrow> now s2 < now s + 260) \<and>
         (\<forall>s3. step (TimerFire (next_timer s)) s2 = Some s3 \<longrightarrow> fully_closed s3))"
proof -
  have fresh: "timers_fresh s" using fresh_run [OF assms(1) fresh_load] .
  define s1 where "s1 = fst (closeModal s)"
  define m1 where "m1 = m\<lparr>classList := add_token (classList m) ''closing''\<rparr>"
  have c: "closeModal s = (s1, None)"
    using closeModal_pending(1) [OF fresh assms(2)] by (simp add: s1_def)
  have m1: "modal (doc s1) = Some m1"
    using closeModal_pending(1) [OF fresh assms(2)] by (simp add: s1_def m1_def setTimeout_def)
  have cl: "classList_contains ''closing'' (classList m1)"
    by (simp add: m1_def classList_contains_def add_token_def)
  have p1: "map_of (timers s1) (next_timer s) = Some (now s + 260)"
    using closeModal_pending(2) [OF fresh assms(2)] by (simp add: s1_def)
  have mp: "modal_present s1" using m1 by (simp add: modal_present_def)
  have "map_of (timers s2) (next_timer s) = Some (now s + 260) \<and>
         (step (TimerFire (next_timer s)) s2 = None \<longleftrightarrow> now s2 < now s + 260) \<and>
         (\<forall>s3. step (TimerFire (next_timer s)) s2 = Some s3 \<longrightarrow> fully_closed s3)"
    if "run es s1 = Some s2" "TimerFire (next_timer s) \<notin> set es" for es s2
  proof -
    have p2: "map_of (timers s2) (next_timer s) = Some (now s + 260)" "modal_present s2"
      using pending_run [OF that p1 mp] by simp_all
    show ?thesis using p2(1) timer_fire_pending [OF p2] by simp
  qed
  then show ?thesis using c m1 cl by blast
qed

theorem closeModal_closes_witness:
  "run [OpenModalClick] (load doc0) \<noteq> None \<and>
   modal (doc (the (run [OpenModalClick] (load doc0)))) =
     Some \<lparr>classList = [''modal'', ''open''], attributes = [''aria-hidden'' \<mapsto> ''false'']\<rparr> \<and>
   step (TimerFire 0)
     (the (run [Elapse 100, OpenModalClick]
        (fst (closeModal (the (run [OpenModalClick] (load doc0))))))) = None \<and>
   fully_closed (the (step (TimerFire 0)
     (the (run [Elapse 100, OpenModalClick, CloseModalClick, Elapse 160]
        (fst (closeModal (the (run [OpenModalClick] (load doc0)))))))))"
proof -
  define s where "s = fst (openModal (load doc0))"
  have r0: "run [OpenModalClick] (load doc0) = Some s" by (simp add: s_def)
  have m: "modal (doc s) =
     Some \<lparr>classList = [''modal'', ''open''], attributes = [''aria-hidden'' \<mapsto> ''false'']\<rparr>"
    by (simp add: s_def load_doc0 openModal_eq modal_doc0 add_token_def setAttribute_def)
  have t: "next_timer s = 0" "now s = 0"
    by (simp_all add: s_def next_timer_listeners load_doc0 openModal_eq modal_doc0)
  from closeModal_closes [OF r0 m] obtain s1 where
    c: "closeModal s = (s1, None)" and
    f: "\<And>es s2. run es s1 = Some s2 \<Longrightarrow> TimerFire 0 \<notin> set es \<Longrightarrow>
         (step (TimerFire 0) s2 = None \<longleftrightarrow> now s2 < 260) \<and>
         (\<forall>s3. step (TimerFire 0) s2 = Some s3 \<longrightarrow> fully_closed s3)"
    unfolding t by auto
  have s1: "s1 = fst (closeModal s)" using c by simp
  define a where "a = fst (openModal (s1\<lparr>now := now s1 + 100\<rparr>))"
  have ra: "run [Elapse 100, OpenModalClick] s1 = Some a" by (simp add: a_def)
  have n1: "now s1 = 0"
    using t m by (simp add: s1 closeModal_eq setTimeout_def)
  have na: "now a = 100"
    by (simp add: a_def n1 openModal_eq split: option.splits)
  have early: "step (TimerFire 0) a = None" using f [OF ra] na by simp
  define b where "b = (fst (closeModal a))\<lparr>now := now (fst (closeModal a)) + 160\<rparr>"
  have rb: "run [Elapse 100, OpenModalClick, CloseModalClick, Elapse 160] s1 = Some b"
    by (simp add: b_def a_def)
  have nb: "now b = 260"
    by (simp add: b_def na closeModal_eq setTimeout_def split: option.splits)
  have "step (TimerFire 0) b \<noteq> None" using f [OF rb] nb by simp
  then obtain s3 where s3: "step (TimerFire 0) b = Some s3" by auto
  then have "fully_closed s3" using f [OF rb] by simp
  then have late: "fully_closed (the (step (TimerFire 0) b))" using s3 by simp
  show ?thesis
    using m early late unfolding r0 option.sel s1 [symmetric] ra rb by simp
qed

end
